theory Spec2Isabelle
  imports Main "HOL-Library.FSet" "HOL-Library.Sublist" "HOL-Library.Multiset"
    "HOL-Library.Char_ord" "HOL-Library.List_Lexorder"
begin

section \<open>Data model\<close>

text \<open>
  The program (\<^verbatim>\<open>teacher-changes.py\<close>) fetches, for every course of a term, the set of
  its teachers from the Canvas API, compares it with the set saved by the previous run and
  writes every addition and removal to the table \<^verbatim>\<open>teacher_changes\<close>.

  A Python \<^verbatim>\<open>set\<close> of names is a finite set (\<open>string fset\<close>). A Python \<^verbatim>\<open>dict\<close> keeps
  its keys in insertion order and is modelled by the list of its items in that order;
  the keys of a dict are pairwise different. The order in which Python iterates over a
  set is not specified, so every function that iterates over a set takes the iteration
  order as an argument \<open>it\<close>: \<open>it S\<close> lists the elements of \<open>S\<close> in the order they are
  visited.
\<close>

type_synonym course_name = string
type_synonym teacher_name = string
type_synonym snapshot = "(course_name \<times> teacher_name fset) list"
type_synonym set_order = "teacher_name fset \<Rightarrow> teacher_name list"

text \<open>What Python guarantees about iterating over a set: every element is visited once.\<close>

definition enumerates :: "set_order \<Rightarrow> bool" where
  "enumerates it \<longleftrightarrow> (\<forall>S. fset_of_list (it S) = S \<and> distinct (it S))"

text \<open>\<^verbatim>\<open>d[k] = v\<close> on a dict: an existing key keeps its place, a new key goes last.\<close>

fun dict_set :: "'k \<Rightarrow> 'v \<Rightarrow> ('k \<times> 'v) list \<Rightarrow> ('k \<times> 'v) list" where
  "dict_set k v [] = [(k, v)]"
| "dict_set k v (kv # d) = (if fst kv = k then (k, v) # d else kv # dict_set k v d)"

text \<open>A row of the table \<^verbatim>\<open>teacher_changes\<close>: course name, action, teacher.\<close>

datatype action = Removed | Added

type_synonym change = "course_name \<times> action \<times> teacher_name"

text \<open>
  Values whose Python type the program does not fix: the \<^verbatim>\<open>id\<close> of a course (an integer or a
  string in the API's JSON) and the \<^verbatim>\<open>headers\<close> dict, which
  \<^verbatim>\<open>fetch_instructors_for_single_course\<close> passes in each other's place.
\<close>

datatype pyval = PyInt int | PyStr string | PyDict "(string \<times> string) list"

text \<open>
  A JSON object of the API, reduced to the two keys the program reads; \<open>None\<close> is a missing
  key. Display names are strings.
\<close>

record item =
  item_id :: "pyval option"
  item_name :: "string option"

datatype error = RequestException | HTTPError nat | JSONDecodeError | KeyError string

type_synonym params = "(string \<times> string list) list"

record request =
  req_url :: string
  req_headers :: pyval
  req_params :: params

text \<open>
  A response: its status, its body decoded by \<^verbatim>\<open>response.json()\<close> (\<open>None\<close> when decoding
  raises) and \<^verbatim>\<open>response.headers.get('Link')\<close>.
\<close>

record response =
  status_code :: nat
  json_body :: "item list option"
  link_header :: "string option"

text \<open>\<^verbatim>\<open>requests.get\<close>: the answer to a request, or the exception it raises.\<close>

type_synonym network = "request \<Rightarrow> error + response"

section \<open>Strings\<close>

text \<open>
  The three string operations of \<^verbatim>\<open>get_next_link\<close>. All three act on ASCII characters
  only, so they agree on bytes and on code points.

  \<^verbatim>\<open>s.split(sep)\<close> for a separator of one character: the pieces between the separators,
  one more than there are separators.
\<close>

fun str_split :: "char \<Rightarrow> string \<Rightarrow> string list" where
  "str_split sep [] = [[]]"
| "str_split sep (c # s) =
     (if c = sep then [] # str_split sep s
      else (case str_split sep s of [] \<Rightarrow> [[c]] | p # ps \<Rightarrow> (c # p) # ps))"

text \<open>\<^verbatim>\<open>p in s\<close>: \<open>p\<close> occurs in \<open>s\<close> as a contiguous substring.\<close>

fun str_in :: "string \<Rightarrow> string \<Rightarrow> bool" where
  "str_in p [] = (p = [])"
| "str_in p (c # s) = (prefix p (c # s) \<or> str_in p s)"

text \<open>\<^verbatim>\<open>s.strip(chars)\<close>: drops the characters of \<open>chars\<close> from both ends.\<close>

definition str_strip :: "string \<Rightarrow> string \<Rightarrow> string" where
  "str_strip chars s =
     rev (dropWhile (\<lambda>c. c \<in> set chars) (rev (dropWhile (\<lambda>c. c \<in> set chars) s)))"

definition rel_next :: string where
  "rel_next = ''rel='' @ [CHR 0x22] @ ''next'' @ [CHR 0x22]"

text \<open>
  \<^verbatim>\<open>get_next_link\<close>. An absent header (\<open>None\<close>) and the empty header are falsy. The loop
  returns at the first piece that contains \<^verbatim>\<open>rel="next"\<close>; \<^verbatim>\<open>link.split(';')[0]\<close> exists
  because \<open>str_split\<close> never returns the empty list (lemma \<open>str_split_not_Nil\<close>).
\<close>

definition get_next_link :: "string option \<Rightarrow> string option" where
  "get_next_link link_header' =
     (case link_header' of
        None \<Rightarrow> None
      | Some h \<Rightarrow>
          if h = [] then None
          else (case find (\<lambda>link. str_in rel_next link) (str_split CHR '','' h) of
                  None \<Rightarrow> None
                | Some link \<Rightarrow> Some (str_strip ''<>'' (hd (str_split CHR '';'' link)))))"

section \<open>Fetching\<close>

definition API_URL :: string where
  "API_URL = ''https://calstatela.instructure.com/api/v1''"

definition ENROLLMENT_TERM_ID :: string where
  "ENROLLMENT_TERM_ID = ''335''"

definition ACCOUNT_ID :: string where
  "ACCOUNT_ID = ''1''"

text \<open>\<^verbatim>\<open>str(v)\<close>, as an f-string formats a value.\<close>

fun digits :: "nat \<Rightarrow> string" where
  "digits n =
     (if n < 10 then [''0123456789'' ! n]
      else digits (n div 10) @ [''0123456789'' ! (n mod 10)])"

declare digits.simps [simp del]

text \<open>
  The \<^verbatim>\<open>repr\<close> of a string made of printable characters other than the quote and the
  backslash; Python escapes the others, and nothing below depends on how a dict is
  rendered.
\<close>

definition py_repr :: "string \<Rightarrow> string" where
  "py_repr s = [CHR 0x27] @ s @ [CHR 0x27]"

fun join :: "string \<Rightarrow> string list \<Rightarrow> string" where
  "join sep [] = []"
| "join sep [s] = s"
| "join sep (s # s' # ss) = s @ sep @ join sep (s' # ss)"

fun py_str :: "pyval \<Rightarrow> string" where
  "py_str (PyInt i) = (if i < 0 then ''-'' @ digits (nat (- i)) else digits (nat i))"
| "py_str (PyStr s) = s"
| "py_str (PyDict kvs) =
     ''{'' @ join '', '' (map (\<lambda>(k, v). py_repr k @ '': '' @ py_repr v) kvs) @ ''}''"

text \<open>\<^verbatim>\<open>response.raise_for_status()\<close> raises for a status from 400 to 599.\<close>

definition raise_for_status :: "response \<Rightarrow> error + unit" where
  "raise_for_status r =
     (if 400 \<le> status_code r \<and> status_code r < 600 then Inl (HTTPError (status_code r))
      else Inr ())"

text \<open>
  The loop of \<^verbatim>\<open>fetch_courses\<close> (lines 76 to 80) and the loop of
  \<^verbatim>\<open>fetch_instructors_for_course\<close> (lines 112 to 116) are the same statements up to the
  names of the variables. \<open>paginate\<close> is that loop: \<open>endpoint\<close> is the loop variable
  (\<open>None\<close> and the empty string are falsy), \<open>acc\<close> the list the pages extend, and \<open>sent\<close>
  the requests sent so far. The result is \<open>None\<close> when the loop never ends, otherwise the
  requests sent and either the exception raised or the items collected.
\<close>

partial_function (option) paginate ::
  "network \<Rightarrow> pyval \<Rightarrow> params \<Rightarrow> string option \<Rightarrow> item list \<Rightarrow> request list
     \<Rightarrow> (request list \<times> (error + item list)) option" where
  "paginate net headers ps endpoint acc sent =
     (case endpoint of
        None \<Rightarrow> Some (sent, Inr acc)
      | Some u \<Rightarrow>
          if u = [] then Some (sent, Inr acc)
          else
            let req = \<lparr>req_url = u, req_headers = headers, req_params = ps\<rparr> in
            (case net req of
               Inl e \<Rightarrow> Some (sent @ [req], Inl e)
             | Inr response \<Rightarrow>
                 (case raise_for_status response of
                    Inl e \<Rightarrow> Some (sent @ [req], Inl e)
                  | Inr _ \<Rightarrow>
                      (case json_body response of
                         None \<Rightarrow> Some (sent @ [req], Inl JSONDecodeError)
                       | Some items \<Rightarrow>
                           paginate net headers ps (get_next_link (link_header response))
                             (acc @ items) (sent @ [req])))))"

definition fetch_courses ::
  "network \<Rightarrow> pyval \<Rightarrow> string \<Rightarrow> params \<Rightarrow> (request list \<times> (error + item list)) option" where
  "fetch_courses net headers courses_endpoint courses_params =
     paginate net headers courses_params (Some courses_endpoint) [] []"

definition instructors_params :: params where
  "instructors_params = [(''enrollment_type'', [''teacher'']), (''per_page'', [''100''])]"

text \<open>The set comprehension \<^verbatim>\<open>{instructor['name'] for instructor in instructors}\<close>.\<close>

fun names_of :: "item list \<Rightarrow> error + teacher_name list" where
  "names_of [] = Inr []"
| "names_of (instructor # instructors) =
     (case item_name instructor of
        None \<Rightarrow> Inl (KeyError ''name'')
      | Some n \<Rightarrow> (case names_of instructors of Inl e \<Rightarrow> Inl e | Inr ns \<Rightarrow> Inr (n # ns)))"

definition instructors_endpoint :: "pyval \<Rightarrow> string" where
  "instructors_endpoint course_id = API_URL @ ''/courses/'' @ py_str course_id @ ''/users''"

definition fetch_instructors_for_course ::
  "network \<Rightarrow> pyval \<Rightarrow> pyval \<Rightarrow> (request list \<times> (error + teacher_name fset)) option" where
  "fetch_instructors_for_course net headers course_id =
     (case paginate net headers instructors_params (Some (instructors_endpoint course_id))
             [] [] of
        None \<Rightarrow> None
      | Some (sent, Inl e) \<Rightarrow> Some (sent, Inl e)
      | Some (sent, Inr instructors) \<Rightarrow>
          (case names_of instructors of
             Inl e \<Rightarrow> Some (sent, Inl e)
           | Inr ns \<Rightarrow> Some (sent, Inr (fset_of_list ns))))"


text \<open>
  \<^verbatim>\<open>fetch_current_teachers\<close> runs the instructor fetches on a thread pool. A future is
  submitted for every course, in the order of the course list; reading \<^verbatim>\<open>course['id']\<close>
  happens at submission and ends the submissions when the key is missing. Leaving the
  \<^verbatim>\<open>with\<close> block waits for every submitted future, also when an exception leaves it, so
  the function returns only if every submitted fetch ends.
\<close>

type_synonym future = "item \<times> (request list \<times> (error + teacher_name fset)) option"

fun submit_all :: "network \<Rightarrow> pyval \<Rightarrow> item list \<Rightarrow> future list \<times> error option" where
  "submit_all net headers [] = ([], None)"
| "submit_all net headers (course # courses) =
     (case item_id course of
        None \<Rightarrow> ([], Some (KeyError ''id''))
      | Some course_id \<Rightarrow>
          (case submit_all net headers courses of
             (futures, e) \<Rightarrow>
               ((course, fetch_instructors_for_course net headers course_id) # futures, e)))"

text \<open>The futures with their results, when all of them end.\<close>

fun wait_all :: "future list \<Rightarrow> (item \<times> request list \<times> (error + teacher_name fset)) list option" where
  "wait_all [] = Some []"
| "wait_all ((course, r) # futures) =
     (case r of
        None \<Rightarrow> None
      | Some (sent, res) \<Rightarrow>
          (case wait_all futures of None \<Rightarrow> None | Some rs \<Rightarrow> Some ((course, sent, res) # rs)))"

text \<open>
  The loop over \<^verbatim>\<open>as_completed\<close>: \<^verbatim>\<open>future.result()\<close> raises the exception of a failed
  fetch, and \<^verbatim>\<open>teachers[course['name']] = teacher_names\<close> stores the result of the others.
\<close>

fun collect_results ::
  "(item \<times> request list \<times> (error + teacher_name fset)) list \<Rightarrow> snapshot \<Rightarrow> error + snapshot" where
  "collect_results [] teachers = Inr teachers"
| "collect_results ((course, sent, res) # rest) teachers =
     (case res of
        Inl e \<Rightarrow> Inl e
      | Inr teacher_names \<Rightarrow>
          (case item_name course of
             None \<Rightarrow> Inl (KeyError ''name'')
           | Some n \<Rightarrow> collect_results rest (dict_set n teacher_names teachers)))"

text \<open>
  \<open>completion\<close> is the order in which \<^verbatim>\<open>as_completed\<close> yields the futures, a rearrangement
  of the futures submitted. The requests of the courses are recorded course by course;
  their real interleaving is not modelled.
\<close>

type_synonym completion_order =
  "(item \<times> request list \<times> (error + teacher_name fset)) list
     \<Rightarrow> (item \<times> request list \<times> (error + teacher_name fset)) list"

definition rearranges :: "completion_order \<Rightarrow> bool" where
  "rearranges completion \<longleftrightarrow> (\<forall>fs. mset (completion fs) = mset fs)"

definition courses_params :: params where
  "courses_params = [(''enrollment_term_id'', [ENROLLMENT_TERM_ID]), (''per_page'', [''100''])]"

definition authorization :: "string \<Rightarrow> pyval" where
  "authorization api_key = PyDict [(''Authorization'', ''Bearer '' @ api_key)]"

definition courses_endpoint :: string where
  "courses_endpoint = API_URL @ ''/accounts/'' @ ACCOUNT_ID @ ''/courses''"

definition fetch_current_teachers ::
  "network \<Rightarrow> completion_order \<Rightarrow> string \<Rightarrow> (request list \<times> (error + snapshot)) option" where
  "fetch_current_teachers net completion api_key =
     (let headers = authorization api_key in
      case fetch_courses net headers courses_endpoint courses_params of
        None \<Rightarrow> None
      | Some (sent, Inl e) \<Rightarrow> Some (sent, Inl e)
      | Some (sent, Inr courses) \<Rightarrow>
          (case submit_all net headers courses of
             (futures, submit_error) \<Rightarrow>
               (case wait_all futures of
                  None \<Rightarrow> None
                | Some results \<Rightarrow>
                    Some (sent @ concat (map (\<lambda>(course, sent', res). sent') results),
                          case submit_error of
                            Some e \<Rightarrow> Inl e
                          | None \<Rightarrow> collect_results (completion results) []))))"

section \<open>The snapshot file\<close>

text \<open>
  The state a run reads and changes: the file \<^verbatim>\<open>teachers_list.json\<close> (\<open>None\<close> when it does
  not exist, otherwise the JSON object it holds, an array of names for every course), the
  rows of the table \<^verbatim>\<open>teacher_changes\<close>, and the requests sent to the API.
\<close>

record world =
  snapshot_file :: "(course_name \<times> teacher_name list) list option"
  teacher_changes :: "change list"
  requests_sent :: "request list"

text \<open>\<^verbatim>\<open>save_teachers_list\<close>: \<^verbatim>\<open>list(teachers)\<close> lists a set in its iteration order.\<close>

definition save_teachers_list :: "set_order \<Rightarrow> snapshot \<Rightarrow> world \<Rightarrow> world" where
  "save_teachers_list it teachers w =
     w\<lparr>snapshot_file := Some (map (\<lambda>(course, teachers'). (course, it teachers')) teachers)\<rparr>"

definition load_teachers_list :: "world \<Rightarrow> snapshot option" where
  "load_teachers_list w =
     (case snapshot_file w of
        None \<Rightarrow> None
      | Some teachers \<Rightarrow>
          Some (map (\<lambda>(course, teachers'). (course, fset_of_list teachers')) teachers))"

section \<open>The change log and the diff\<close>

text \<open>
  \<^verbatim>\<open>log_teacher_change\<close> inserts one row and commits. The connection is modelled by the
  rows of the table it writes to, in insertion order; the insert is taken to succeed.
\<close>

definition log_teacher_change ::
  "change list \<Rightarrow> course_name \<Rightarrow> action \<Rightarrow> teacher_name \<Rightarrow> change list" where
  "log_teacher_change connection course act teacher = connection @ [(course, act, teacher)]"

text \<open>\<^verbatim>\<open>old_list.get(course, set())\<close>\<close>

definition get_or_empty :: "snapshot \<Rightarrow> course_name \<Rightarrow> teacher_name fset" where
  "get_or_empty old_list course = (case map_of old_list course of None \<Rightarrow> {||} | Some ts \<Rightarrow> ts)"

text \<open>
  \<^verbatim>\<open>compare_teachers\<close>: the outer loop runs over the items of \<open>new_list\<close>; its body
  (\<open>compare_course\<close>) runs the loop over the removed teachers and then the loop over the
  added teachers. The result is the table after the last insert.
\<close>

definition compare_course ::
  "set_order \<Rightarrow> snapshot \<Rightarrow> course_name \<times> teacher_name fset \<Rightarrow> change list \<Rightarrow> change list" where
  "compare_course it old_list item db_connection =
     (case item of
        (course, new_teachers) \<Rightarrow>
          let old_teachers = get_or_empty old_list course;
              removed_teachers = old_teachers |-| new_teachers;
              db1 = fold (\<lambda>teacher db. log_teacher_change db course Removed teacher)
                      (it removed_teachers) db_connection;
              added_teachers = new_teachers |-| old_teachers
          in fold (\<lambda>teacher db. log_teacher_change db course Added teacher)
               (it added_teachers) db1)"

definition compare_teachers ::
  "set_order \<Rightarrow> snapshot \<Rightarrow> snapshot \<Rightarrow> change list \<Rightarrow> change list" where
  "compare_teachers it old_list new_list db_connection =
     fold (compare_course it old_list) new_list db_connection"

section \<open>The run\<close>

text \<open>
  The module reads its configuration file before \<^verbatim>\<open>main\<close> is called; the model starts at
  \<^verbatim>\<open>main\<close>, with the token read as \<open>env_api_key\<close>. What a run depends on besides the state: the API, the two orders Python leaves open,
  whether the database can be reached, and the token of the configuration file.
\<close>

record env =
  env_net :: network
  env_set_iteration :: set_order
  env_completion :: completion_order
  env_db_reachable :: bool
  env_api_key :: string

text \<open>
  \<^verbatim>\<open>create_db_connection\<close> returns \<^verbatim>\<open>None\<close> when connecting raises; a connection is the
  table it writes to.
\<close>

definition create_db_connection :: "env \<Rightarrow> world \<Rightarrow> change list option" where
  "create_db_connection e w = (if env_db_reachable e then Some (teacher_changes w) else None)"

datatype outcome = No_connection | Raised error | Finished

text \<open>
  \<^verbatim>\<open>main\<close>: the state at the end of the run and how the run ended; \<open>None\<close> when the run
  never ends.
\<close>

definition main :: "env \<Rightarrow> world \<Rightarrow> (world \<times> outcome) option" where
  "main e w =
     (case create_db_connection e w of
        None \<Rightarrow> Some (w, No_connection)
      | Some db_connection \<Rightarrow>
          (case fetch_current_teachers (env_net e) (env_completion e) (env_api_key e) of
             None \<Rightarrow> None
           | Some (sent, Inl err) \<Rightarrow>
               Some (w\<lparr>requests_sent := requests_sent w @ sent\<rparr>, Raised err)
           | Some (sent, Inr current_teachers) \<Rightarrow>
               let w1 = w\<lparr>requests_sent := requests_sent w @ sent\<rparr>;
                   previous_teachers = load_teachers_list w1;
                   w2 = (case previous_teachers of
                           Some previous \<Rightarrow>
                             w1\<lparr>teacher_changes :=
                                  compare_teachers (env_set_iteration e) previous current_teachers
                                    db_connection\<rparr>
                         | None \<Rightarrow> w1)
               in Some (save_teachers_list (env_set_iteration e) current_teachers w2, Finished)))"

section \<open>Notions used to state the properties\<close>

text \<open>The rows \<^verbatim>\<open>compare_teachers\<close> writes for one item of \<open>new_list\<close>.\<close>

definition course_changes :: "set_order \<Rightarrow> snapshot \<Rightarrow> course_name \<times> teacher_name fset \<Rightarrow> change list" where
  "course_changes it old_list item =
     map (\<lambda>teacher. (fst item, Removed, teacher)) (it (get_or_empty old_list (fst item) |-| snd item))
     @ map (\<lambda>teacher. (fst item, Added, teacher)) (it (snd item |-| get_or_empty old_list (fst item)))"

text \<open>One iteration order, used in the examples: the names in alphabetical order.\<close>

definition alphabetical :: set_order where
  "alphabetical = sorted_list_of_fset"

text \<open>Another one: the names in reverse alphabetical order.\<close>

definition backwards :: set_order where
  "backwards S = rev (alphabetical S)"

text \<open>
  A link header as the API writes it: pieces joined by commas. A piece is an entry
  \<^verbatim>\<open><url>; rel="relation"\<close> or any other text. A piece is plain when it cannot be
  mistaken: the URL of an entry has no comma, semicolon, double quote or angle bracket
  and its relation no comma or double quote; other text has no comma and does not
  contain \<^verbatim>\<open>rel="next"\<close>. \<open>first_next\<close> is the URL of the first entry whose relation is
  \<^verbatim>\<open>next\<close>.
\<close>

datatype link_piece = Entry string string | Junk string

fun render_piece :: "link_piece \<Rightarrow> string" where
  "render_piece (Entry u r) = ''<'' @ u @ ''>; rel='' @ [CHR 0x22] @ r @ [CHR 0x22]"
| "render_piece (Junk s) = s"

definition link_header_of :: "link_piece list \<Rightarrow> string" where
  "link_header_of pieces = join '','' (map render_piece pieces)"

fun plain_piece :: "link_piece \<Rightarrow> bool" where
  "plain_piece (Entry u r) =
     (list_all (\<lambda>c. c \<notin> set '',;<>'' \<and> c \<noteq> CHR 0x22) u \<and>
      list_all (\<lambda>c. c \<noteq> CHR '','' \<and> c \<noteq> CHR 0x22) r)"
| "plain_piece (Junk s) = (CHR '','' \<notin> set s \<and> \<not> str_in rel_next s)"

fun first_next :: "link_piece list \<Rightarrow> string option" where
  "first_next [] = None"
| "first_next (Entry u r # pieces) = (if r = ''next'' then Some u else first_next pieces)"
| "first_next (Junk s # pieces) = first_next pieces"

text \<open>
  A page of a paginated list: the URL it is served at, its status, its items and its
  link header. The API serves a page when the request for its URL, with the headers and
  the parameters of the fetch, is answered by that page with a status that
  \<^verbatim>\<open>raise_for_status\<close> accepts. \<open>chain start pages nxt\<close>: the first page is at \<open>start\<close>, every
  page carries the link of its successor, and the last page carries the link \<open>nxt\<close>
  (\<open>None\<close>: no continuation link). \<open>request_error\<close> is the exception that the three calls
  on a page (\<^verbatim>\<open>requests.get\<close>, \<^verbatim>\<open>raise_for_status\<close>, \<^verbatim>\<open>json\<close>) raise, if any.
\<close>

record page =
  page_url :: string
  page_status :: nat
  page_items :: "item list"
  page_link :: "string option"

definition request_for :: "pyval \<Rightarrow> params \<Rightarrow> string \<Rightarrow> request" where
  "request_for headers ps u = \<lparr>req_url = u, req_headers = headers, req_params = ps\<rparr>"

definition serves :: "network \<Rightarrow> pyval \<Rightarrow> params \<Rightarrow> page \<Rightarrow> bool" where
  "serves net headers ps pg \<longleftrightarrow>
     page_url pg \<noteq> [] \<and> \<not> (400 \<le> page_status pg \<and> page_status pg < 600) \<and>
     net (request_for headers ps (page_url pg))
       = Inr \<lparr>status_code = page_status pg, json_body = Some (page_items pg),
              link_header = page_link pg\<rparr>"

fun chain :: "string \<Rightarrow> page list \<Rightarrow> string option \<Rightarrow> bool" where
  "chain start [] nxt = (nxt = Some start)"
| "chain start (pg # pgs) nxt =
     (page_url pg = start \<and>
      (case get_next_link (page_link pg) of
         None \<Rightarrow> pgs = [] \<and> nxt = None
       | Some u \<Rightarrow> chain u pgs nxt))"

definition request_error :: "network \<Rightarrow> request \<Rightarrow> error option" where
  "request_error net req =
     (case net req of
        Inl e \<Rightarrow> Some e
      | Inr response \<Rightarrow>
          (case raise_for_status response of
             Inl e \<Rightarrow> Some e
           | Inr _ \<Rightarrow> (case json_body response of None \<Rightarrow> Some JSONDecodeError | Some _ \<Rightarrow> None)))"

text \<open>
  An API for the examples, with the token \<^verbatim>\<open>secret\<close>: two courses on one page; the
  teachers of course 7 on two pages, the second with the status given; no teacher for
  course 8. A request without the authorization headers is answered with status 401.
\<close>

definition teacher_item :: "string \<Rightarrow> item" where
  "teacher_item n = \<lparr>item_id = None, item_name = Some n\<rparr>"

definition course_item :: "int \<Rightarrow> string \<Rightarrow> item" where
  "course_item i n = \<lparr>item_id = Some (PyInt i), item_name = Some n\<rparr>"

definition campus :: "nat \<Rightarrow> network" where
  "campus second_status req =
     (if req_headers req \<noteq> authorization ''secret'' then
        Inr \<lparr>status_code = 401, json_body = None, link_header = None\<rparr>
      else if req_url req = courses_endpoint then
        Inr \<lparr>status_code = 200,
             json_body = Some [course_item 7 ''CS101'', course_item 8 ''CS102''],
             link_header = None\<rparr>
      else if req_url req = instructors_endpoint (PyInt 7) then
        Inr \<lparr>status_code = 200, json_body = Some [teacher_item ''Alice''],
             link_header = Some (link_header_of [Entry ''https://h/p2'' ''next''])\<rparr>
      else if req_url req = ''https://h/p2'' then
        Inr \<lparr>status_code = second_status,
             json_body = Some [teacher_item ''Bob'', teacher_item ''Alice''],
             link_header = None\<rparr>
      else if req_url req = instructors_endpoint (PyInt 8) then
        Inr \<lparr>status_code = 200, json_body = Some [], link_header = None\<rparr>
      else Inr \<lparr>status_code = 404, json_body = None, link_header = None\<rparr>)"

text \<open>
  Runs for the examples: the database reachable or not, \<^verbatim>\<open>as_completed\<close> yielding the
  futures in reverse order of submission; a first run, and a later run that finds the
  file of an earlier one.
\<close>

definition campus_env :: "nat \<Rightarrow> bool \<Rightarrow> env" where
  "campus_env second_status up =
     \<lparr>env_net = campus second_status, env_set_iteration = alphabetical, env_completion = rev,
      env_db_reachable = up, env_api_key = ''secret''\<rparr>"

definition first_run :: world where
  "first_run = \<lparr>snapshot_file = None, teacher_changes = [], requests_sent = []\<rparr>"

definition later_run :: world where
  "later_run = \<lparr>snapshot_file = Some [(''CS101'', [''Alice''])],
                teacher_changes = [(''CS101'', Added, ''Alice'')], requests_sent = []\<rparr>"

section \<open>Properties of the diff\<close>

lemma distinct_sorted_list_of_fset: "distinct (sorted_list_of_fset S)"
  by (simp add: sorted_list_of_fset.rep_eq)

lemma enumerates_alphabetical: "enumerates alphabetical"
  by (simp add: enumerates_def alphabetical_def distinct_sorted_list_of_fset)

lemma alphabetical_single: "alphabetical {|x|} = [x]"
  by (simp add: alphabetical_def sorted_list_of_fset.rep_eq)

lemma alphabetical_empty: "alphabetical {||} = []"
  by (simp add: alphabetical_def sorted_list_of_fset.rep_eq)

lemma alphabetical_pair: "x < y \<Longrightarrow> alphabetical {|x, y|} = [x, y]"
  by (auto simp: alphabetical_def sorted_list_of_fset.rep_eq)

lemma Alice_Bob: "alphabetical {|''Alice'', ''Bob''|} = [''Alice'', ''Bob'']"
  by (rule alphabetical_pair) (simp add: less_char_def)

lemma set_enumerates: "enumerates it \<Longrightarrow> set (it S) = fset S"
  by (metis enumerates_def fset_of_list.rep_eq)

lemma fold_log_teacher_change:
  "fold (\<lambda>teacher db. log_teacher_change db course act teacher) ts db
     = db @ map (\<lambda>teacher. (course, act, teacher)) ts"
  by (induction ts arbitrary: db) (simp_all add: log_teacher_change_def)

lemma compare_course_append:
  "compare_course it old_list item db = db @ course_changes it old_list item"
  by (cases item) (simp add: compare_course_def course_changes_def fold_log_teacher_change Let_def)

lemma compare_teachers_append:
  "compare_teachers it old_list new_list db
     = db @ concat (map (course_changes it old_list) new_list)"
  unfolding compare_teachers_def
  by (induction new_list arbitrary: db) (simp_all add: compare_course_append)

lemma course_changes_course: "r \<in> set (course_changes it old_list item) \<Longrightarrow> fst r = fst item"
  by (auto simp: course_changes_def)

lemma in_course_changes:
  assumes "enumerates it"
  shows "(c, a, t) \<in> set (course_changes it old_list (c', N)) \<longleftrightarrow>
           c = c' \<and> (case a of Removed \<Rightarrow> t |\<in>| get_or_empty old_list c \<and> t |\<notin>| N
                              | Added \<Rightarrow> t |\<in>| N \<and> t |\<notin>| get_or_empty old_list c)"
  using set_enumerates[OF assms]
  by (cases a) (auto simp: course_changes_def)

text \<open>
  Claim C1, as amended. For a dict \<open>new_list\<close> and every course \<open>c\<close>, action \<open>a\<close> and teacher
  \<open>t\<close>: the rows written by \<^verbatim>\<open>compare_teachers\<close> contain \<open>(c, a, t)\<close> if and only if \<open>c\<close> is
  a key of \<open>new_list\<close> and, for \<open>a = Removed\<close>, \<open>t\<close> is in the old set of \<open>c\<close> (empty when
  \<open>c\<close> is not a key of \<open>old_list\<close>) and not in the new one, and for \<open>a = Added\<close>, \<open>t\<close> is in
  the new set and not in the old one. Every row has one of the two actions, so no other
  row is written.
\<close>

theorem diff_records:
  assumes "enumerates it" and "distinct (map fst new_list)"
  shows "(c, a, t) \<in> set (compare_teachers it old_list new_list []) \<longleftrightarrow>
           (\<exists>new_teachers. map_of new_list c = Some new_teachers \<and>
              (case a of
                 Removed \<Rightarrow> t |\<in>| get_or_empty old_list c \<and> t |\<notin>| new_teachers
               | Added \<Rightarrow> t |\<in>| new_teachers \<and> t |\<notin>| get_or_empty old_list c))"
proof -
  have "(c, a, t) \<in> set (compare_teachers it old_list new_list []) \<longleftrightarrow>
          (\<exists>item \<in> set new_list. (c, a, t) \<in> set (course_changes it old_list item))"
    by (simp add: compare_teachers_append)
  also have "\<dots> \<longleftrightarrow> (\<exists>N. (c, N) \<in> set new_list \<and> (c, a, t) \<in> set (course_changes it old_list (c, N)))"
    using in_course_changes[OF assms(1)] by (metis prod.collapse surj_pair)
  also have "\<dots> \<longleftrightarrow> (\<exists>N. map_of new_list c = Some N \<and> (c, a, t) \<in> set (course_changes it old_list (c, N)))"
    using assms(2) by (metis map_of_eq_Some_iff)
  finally show ?thesis
    by (simp add: in_course_changes[OF assms(1)])
qed

theorem diff_records_witness:
  "enumerates alphabetical \<and>
   distinct (map fst [(''CS101'', {|''Alice'', ''Bob''|}), (''CS102'', {|''Dan''|})]) \<and>
   (''CS101'', Removed, ''Carol'')
     \<in> set (compare_teachers alphabetical [(''CS101'', {|''Alice'', ''Carol''|})]
              [(''CS101'', {|''Alice'', ''Bob''|}), (''CS102'', {|''Dan''|})] []) \<and>
   (''CS101'', Added, ''Bob'')
     \<in> set (compare_teachers alphabetical [(''CS101'', {|''Alice'', ''Carol''|})]
              [(''CS101'', {|''Alice'', ''Bob''|}), (''CS102'', {|''Dan''|})] []) \<and>
   (''CS102'', Added, ''Dan'')
     \<in> set (compare_teachers alphabetical [(''CS101'', {|''Alice'', ''Carol''|})]
              [(''CS101'', {|''Alice'', ''Bob''|}), (''CS102'', {|''Dan''|})] []) \<and>
   (''CS101'', Added, ''Alice'')
     \<notin> set (compare_teachers alphabetical [(''CS101'', {|''Alice'', ''Carol''|})]
              [(''CS101'', {|''Alice'', ''Bob''|}), (''CS102'', {|''Dan''|})] [])"
proof -
  have keys: "distinct (map fst [(''CS101'', {|''Alice'', ''Bob''|}), (''CS102'', {|''Dan''|})])"
    by simp
  show ?thesis
    using keys enumerates_alphabetical
    by (simp add: diff_records [OF enumerates_alphabetical keys] get_or_empty_def)
qed

text \<open>
  Claim C1 as it is stated reads the set of a course that is not a key as empty on both
  sides. It fails for a course that only \<open>old_list\<close> has: Alice is in the old set of CS101
  and in no new set, and no row is written.
\<close>

theorem diff_records_as_stated_counterexample:
  "\<not> ((''CS101'', Removed, ''Alice'')
         \<in> set (compare_teachers alphabetical [(''CS101'', {|''Alice''|})] [] [])
       \<longleftrightarrow> ''Alice'' |\<in>| get_or_empty [(''CS101'', {|''Alice''|})] ''CS101'' \<and>
           ''Alice'' |\<notin>| get_or_empty [] ''CS101'')"
  by (simp add: compare_teachers_def get_or_empty_def)

text \<open>
  Claim C2. A course that is not a key of \<open>new_list\<close> has no row among those written,
  whatever \<open>old_list\<close> holds for it.
\<close>

theorem dropped_course_no_records:
  assumes "c \<notin> fst ` set new_list"
  shows "filter (\<lambda>r. fst r = c) (compare_teachers it old_list new_list []) = []"
proof -
  have "fst r \<noteq> c" if "r \<in> set (compare_teachers it old_list new_list [])" for r
  proof -
    from that obtain item where "item \<in> set new_list" "r \<in> set (course_changes it old_list item)"
      by (auto simp: compare_teachers_append)
    then have "fst r = fst item" "fst item \<in> fst ` set new_list"
      by (simp_all add: course_changes_course)
    then show ?thesis using assms by metis
  qed
  then show ?thesis
    by (simp add: filter_empty_conv)
qed

theorem dropped_course_no_records_witness:
  "''MATH2'' \<notin> fst ` set [(''CS101'', {|''Alice''|})] \<and>
   filter (\<lambda>r. fst r = ''MATH2'')
     (compare_teachers alphabetical [(''CS101'', {|''Alice''|}), (''MATH2'', {|''Dan''|})]
        [(''CS101'', {|''Alice''|})] []) = []"
  using dropped_course_no_records
    [of "''MATH2''" "[(''CS101'', {|''Alice''|})]" alphabetical
        "[(''CS101'', {|''Alice''|}), (''MATH2'', {|''Dan''|})]"]
  by simp

lemma filter_course_changes:
  "filter (\<lambda>r. fst r = c) (course_changes it old_list item)
     = (if fst item = c then course_changes it old_list item else [])"
  by (auto simp: course_changes_def filter_empty_conv)

lemma filter_concat_course_changes:
  assumes "distinct (map fst new_list)" and "map_of new_list c = Some N"
  shows "filter (\<lambda>r. fst r = c) (concat (map (course_changes it old_list) new_list))
           = course_changes it old_list (c, N)"
  using assms
proof (induction new_list)
  case Nil
  then show ?case by simp
next
  case (Cons item rest)
  show ?case
  proof (cases "fst item = c")
    case True
    then have "c \<notin> fst ` set rest" using Cons.prems(1) by auto
    have "fst r \<noteq> c" if "r \<in> set (concat (map (course_changes it old_list) rest))" for r
    proof -
      from that obtain item' where "item' \<in> set rest" "r \<in> set (course_changes it old_list item')"
        by auto
      then have "fst r = fst item'" "fst item' \<in> fst ` set rest"
        by (simp_all add: course_changes_course)
      then show ?thesis using \<open>c \<notin> fst ` set rest\<close> by metis
    qed
    then have "filter (\<lambda>r. fst r = c) (concat (map (course_changes it old_list) rest)) = []"
      by (simp add: filter_empty_conv)
    moreover have "item = (c, N)" using True Cons.prems(2) by (cases item) simp
    ultimately show ?thesis by (simp add: filter_course_changes)
  next
    case False
    then have "map_of rest c = Some N" using Cons.prems(2) by (cases item) (simp split: if_splits)
    then show ?thesis using Cons False by (simp add: filter_course_changes)
  qed
qed

text \<open>
  Claim C8. For a course \<open>c\<close> of the dict \<open>new_list\<close>, the rows of \<open>c\<close> among those written
  are the rows of the removed teachers followed by the rows of the added teachers: every
  removed row of \<open>c\<close> comes before every added row of \<open>c\<close>.
\<close>

theorem removed_before_added:
  assumes "distinct (map fst new_list)" and "map_of new_list c = Some new_teachers"
  shows "filter (\<lambda>r. fst r = c) (compare_teachers it old_list new_list [])
           = map (\<lambda>t. (c, Removed, t)) (it (get_or_empty old_list c |-| new_teachers))
             @ map (\<lambda>t. (c, Added, t)) (it (new_teachers |-| get_or_empty old_list c))"
  using filter_concat_course_changes[OF assms]
  by (simp add: compare_teachers_append course_changes_def)

theorem removed_before_added_witness:
  "distinct (map fst [(''CS101'', {|''Bob''|})]) \<and>
   map_of [(''CS101'', {|''Bob''|})] ''CS101'' = Some {|''Bob''|} \<and>
   filter (\<lambda>r. fst r = ''CS101'')
     (compare_teachers alphabetical [(''CS101'', {|''Alice''|})] [(''CS101'', {|''Bob''|})] [])
     = [(''CS101'', Removed, ''Alice''), (''CS101'', Added, ''Bob'')]"
  using removed_before_added
    [of "[(''CS101'', {|''Bob''|})]" "''CS101''" "{|''Bob''|}" alphabetical
        "[(''CS101'', {|''Alice''|})]"]
  by (simp add: get_or_empty_def alphabetical_single)

text \<open>
  Across courses the rows follow the order of the items of \<open>new_list\<close>: an added row of one
  course can come before a removed row of another.
\<close>

lemma added_before_removed_of_another_course:
  "compare_teachers alphabetical [(''CS102'', {|''Dan''|})]
     [(''CS101'', {|''Bob''|}), (''CS102'', {||})] []
     = [(''CS101'', Added, ''Bob''), (''CS102'', Removed, ''Dan'')]"
  by (simp add: compare_teachers_append course_changes_def get_or_empty_def
      alphabetical_single alphabetical_empty)

section \<open>Properties of the snapshot file\<close>

text \<open>
  Claim C3. Whatever the order in which \<^verbatim>\<open>list\<close> lists the sets, loading the file that
  \<^verbatim>\<open>save_teachers_list\<close> wrote gives back the snapshot saved: the same courses with the
  same sets.
\<close>

theorem load_save_roundtrip:
  assumes "enumerates it"
  shows "load_teachers_list (save_teachers_list it teachers w) = Some teachers"
proof -
  have "map (\<lambda>(course, ts). (course, fset_of_list ts))
          (map (\<lambda>(course, ts). (course, it ts)) teachers) = teachers"
    using assms by (induction teachers) (auto simp: enumerates_def)
  then show ?thesis
    by (simp add: load_teachers_list_def save_teachers_list_def)
qed

lemma enumerates_backwards: "enumerates backwards"
  using enumerates_alphabetical by (simp add: enumerates_def backwards_def)

theorem load_save_roundtrip_witness:
  "enumerates backwards \<and>
   snapshot_file (save_teachers_list backwards
       [(''CS101'', {|''Alice'', ''Bob''|}), (''CS102'', {||})] first_run)
     = Some [(''CS101'', [''Bob'', ''Alice'']), (''CS102'', [])] \<and>
   load_teachers_list (save_teachers_list backwards
       [(''CS101'', {|''Alice'', ''Bob''|}), (''CS102'', {||})] first_run)
     = Some [(''CS101'', {|''Alice'', ''Bob''|}), (''CS102'', {||})]"
  using enumerates_backwards
    load_save_roundtrip [OF enumerates_backwards,
      of "[(''CS101'', {|''Alice'', ''Bob''|}), (''CS102'', {||})]" first_run]
  by (simp add: save_teachers_list_def backwards_def Alice_Bob alphabetical_empty)

section \<open>Properties of the link header\<close>

lemma str_split_not_Nil: "str_split sep s \<noteq> []"
  by (induction s) (auto split: list.splits)

lemma str_split_no_sep: "sep \<notin> set s \<Longrightarrow> str_split sep s = [s]"
  by (induction s) auto

lemma str_split_append:
  "sep \<notin> set s \<Longrightarrow> str_split sep (s @ sep # t) = s # str_split sep t"
  by (induction s) auto

lemma str_split_join:
  assumes "\<forall>s \<in> set ss. sep \<notin> set s" and "ss \<noteq> []"
  shows "str_split sep (join [sep] ss) = ss"
  using assms
proof (induction "[sep]" ss rule: join.induct)
  case 1
  then show ?case by simp
next
  case (2 s)
  then show ?case by (simp add: str_split_no_sep)
next
  case (3 s s' ss)
  then show ?case by (simp add: str_split_append)
qed

lemma str_in_sublist: "str_in p s \<longleftrightarrow> sublist p s"
  by (induction s) (simp_all add: sublist_Cons_right)

lemma dropWhile_keeps:
  "u \<noteq> [] \<Longrightarrow> \<not> P (hd u) \<Longrightarrow> dropWhile P u = u"
  by (cases u) simp_all

lemma str_strip_angle:
  assumes "\<forall>c \<in> set u. c \<noteq> CHR ''<'' \<and> c \<noteq> CHR ''>''"
  shows "str_strip ''<>'' (''<'' @ u @ ''>'') = u"
proof (cases "u = []")
  case True
  then show ?thesis by (simp add: str_strip_def)
next
  case False
  let ?P = "\<lambda>c. c \<in> set ''<>''"
  have "hd u \<in> set u" "last u \<in> set u"
    using False by simp_all
  then have ends: "\<not> ?P (hd u)" "\<not> ?P (last u)"
    using assms by auto
  have "dropWhile ?P (u @ ''>'') = u @ ''>''"
    using False ends(1) by (intro dropWhile_keeps) simp_all
  then have start: "dropWhile ?P (''<'' @ u @ ''>'') = u @ ''>''"
    by simp
  have "dropWhile ?P (rev u) = rev u"
    using False ends(2) by (intro dropWhile_keeps) (simp_all add: hd_rev)
  then have "dropWhile ?P (rev (u @ ''>'')) = rev u"
    by simp
  then show ?thesis
    unfolding str_strip_def start by simp
qed

lemma count_quotes:
  fixes q :: char
  assumes "a @ q # b = a' @ q # b'" and "q \<notin> set a" and "q \<notin> set a'"
  shows "a = a' \<and> b = b'"
  using assms
proof (induction a arbitrary: a')
  case Nil
  then show ?case by (cases a') auto
next
  case (Cons x a)
  then show ?case by (cases a') auto
qed


lemma entry_has_rel_next:
  assumes "CHR 0x22 \<notin> set u" and "CHR 0x22 \<notin> set r"
  shows "str_in rel_next (render_piece (Entry u r)) \<longleftrightarrow> r = ''next''"
proof
  assume "r = ''next''"
  then have "render_piece (Entry u r) = (''<'' @ u @ ''>; '') @ rel_next @ []"
    by (simp add: rel_next_def)
  then show "str_in rel_next (render_piece (Entry u r))"
    unfolding str_in_sublist sublist_def by blast
next
  assume "str_in rel_next (render_piece (Entry u r))"
  then obtain a b where ab: "render_piece (Entry u r) = a @ rel_next @ b"
    unfolding str_in_sublist sublist_def by blast
  let ?q = "CHR 0x22 :: char"
  have eq: "(''<'' @ u @ ''>; rel='') @ ?q # (r @ [?q]) = (a @ ''rel='') @ ?q # (''next'' @ ?q # b)"
    using ab by (simp add: rel_next_def)
  let ?n = "\<lambda>s. length (filter (\<lambda>c. c = ?q) s)"
  have "?n u = 0" "?n r = 0"
    using assms by (auto simp: filter_empty_conv)
  then have "?n ((''<'' @ u @ ''>; rel='') @ ?q # (r @ [?q])) = 2"
    by simp
  moreover have "?n ((a @ ''rel='') @ ?q # (''next'' @ ?q # b)) = 2 + ?n a + ?n b"
    by simp
  ultimately have "?n a = 0"
    using arg_cong[OF eq, of ?n] by linarith
  then have "?q \<notin> set a"
    by (auto simp: filter_empty_conv)
  then have "?q \<notin> set (a @ ''rel='')"
    by simp
  moreover have "?q \<notin> set (''<'' @ u @ ''>; rel='')"
    using assms by simp
  ultimately have "r @ [?q] = ''next'' @ ?q # b"
    using count_quotes[OF eq] by blast
  then have "r @ ?q # [] = ''next'' @ ?q # b"
    by simp
  moreover have "?q \<notin> set ''next''" by simp
  ultimately show "r = ''next''"
    using count_quotes assms(2) by blast
qed

lemma entry_url:
  assumes "\<forall>c \<in> set u. c \<noteq> CHR '';'' \<and> c \<noteq> CHR ''<'' \<and> c \<noteq> CHR ''>''"
  shows "str_strip ''<>'' (hd (str_split CHR '';'' (render_piece (Entry u r)))) = u"
proof -
  define start where "start = ''<'' @ u @ ''>''"
  define rest where "rest = '' rel='' @ [CHR 0x22] @ r @ [CHR 0x22]"
  have "CHR '';'' \<notin> set start"
    using assms by (auto simp: start_def)
  then have "str_split CHR '';'' (start @ CHR '';'' # rest) = start # str_split CHR '';'' rest"
    by (rule str_split_append)
  moreover have "render_piece (Entry u r) = start @ CHR '';'' # rest"
    by (simp add: start_def rest_def)
  ultimately have "hd (str_split CHR '';'' (render_piece (Entry u r))) = start"
    by simp
  moreover have "str_strip ''<>'' start = u"
    unfolding start_def using assms by (intro str_strip_angle) simp
  ultimately show ?thesis
    by simp
qed

lemma find_rel_next:
  assumes "\<forall>p \<in> set pieces. plain_piece p"
  shows "map_option (\<lambda>link. str_strip ''<>'' (hd (str_split CHR '';'' link)))
           (find (\<lambda>link. str_in rel_next link) (map render_piece pieces)) = first_next pieces"
  using assms
proof (induction pieces rule: first_next.induct)
  case 1
  then show ?case by simp
next
  case (2 u r pieces)
  from "2.prems" have "plain_piece (Entry u r)" by simp
  then have q: "CHR 0x22 \<notin> set u" "CHR 0x22 \<notin> set r"
    and u: "\<forall>c \<in> set u. c \<noteq> CHR '';'' \<and> c \<noteq> CHR ''<'' \<and> c \<noteq> CHR ''>''"
    by (simp_all add: list_all_iff) blast+
  from "2.prems" have rest: "\<forall>p \<in> set pieces. plain_piece p" by simp
  show ?case
  proof (cases "r = ''next''")
    case True
    then have "str_in rel_next (render_piece (Entry u r))"
      using entry_has_rel_next[OF q] by blast
    then show ?thesis
      using True entry_url[OF u, of r] by (simp del: render_piece.simps)
  next
    case False
    then have "\<not> str_in rel_next (render_piece (Entry u r))"
      using entry_has_rel_next[OF q] by blast
    then show ?thesis
      using False "2.IH"[OF False rest] by (simp del: render_piece.simps)
  qed
next
  case (3 s pieces)
  then show ?case by simp
qed

lemma render_piece_no_comma: "plain_piece p \<Longrightarrow> CHR '','' \<notin> set (render_piece p)"
proof (cases p)
  case (Entry u r)
  assume "plain_piece p"
  then have "CHR '','' \<notin> set u" "CHR '','' \<notin> set r"
    using Entry by (simp_all add: list_all_iff) blast+
  then show ?thesis using Entry by simp
next
  case (Junk s)
  assume "plain_piece p"
  then show ?thesis using Junk by simp
qed

text \<open>
  Claim C5, as amended. For a header of plain pieces joined by commas, \<^verbatim>\<open>get_next_link\<close>
  returns the URL of the first entry whose relation is \<^verbatim>\<open>next\<close>, without the angle
  brackets, and \<open>None\<close> when there is no such entry; pieces that are no entries are passed
  over. For an absent header it returns \<open>None\<close>. The function has no exception to raise.
\<close>

theorem next_link_of_plain_header:
  assumes "\<forall>p \<in> set pieces. plain_piece p"
  shows "get_next_link (Some (link_header_of pieces)) = first_next pieces \<and> get_next_link None = None"
proof (cases "link_header_of pieces = []")
  case True
  have "first_next pieces = None"
  proof (cases pieces)
    case Nil
    then show ?thesis by simp
  next
    case (Cons p ps)
    have "pieces \<noteq> []" using Cons by simp
    moreover have "\<forall>s \<in> set (map render_piece pieces). CHR '','' \<notin> set s"
      using assms render_piece_no_comma by auto
    ultimately have "str_split CHR '','' (link_header_of pieces) = map render_piece pieces"
      unfolding link_header_of_def by (simp add: str_split_join)
    then have "map render_piece pieces = [[]]"
      using True by simp
    then obtain s where "pieces = [s]" "render_piece s = []"
      by auto
    then show ?thesis by (cases s) auto
  qed
  then show ?thesis using True by (simp add: get_next_link_def)
next
  case False
  then have ne: "pieces \<noteq> []" by (auto simp: link_header_of_def)
  have "\<forall>s \<in> set (map render_piece pieces). CHR '','' \<notin> set s"
    using assms render_piece_no_comma by auto
  then have "str_split CHR '','' (link_header_of pieces) = map render_piece pieces"
    unfolding link_header_of_def using ne by (simp add: str_split_join)
  then show ?thesis
    using False find_rel_next[OF assms]
    by (auto simp: get_next_link_def split: option.splits)
qed

theorem next_link_of_plain_header_witness:
  "list_all plain_piece
     [Entry ''https://h/c?page=1'' ''current'', Junk ''rel=next'',
      Entry ''https://h/c?page=2'' ''next'', Entry ''https://h/c?page=9'' ''last''] \<and>
   get_next_link (Some (link_header_of
     [Entry ''https://h/c?page=1'' ''current'', Junk ''rel=next'',
      Entry ''https://h/c?page=2'' ''next'', Entry ''https://h/c?page=9'' ''last'']))
     = Some ''https://h/c?page=2''"
proof -
  have plain: "\<forall>p \<in> set [Entry ''https://h/c?page=1'' ''current'', Junk ''rel=next'',
                  Entry ''https://h/c?page=2'' ''next'', Entry ''https://h/c?page=9'' ''last'']. plain_piece p"
    by (simp add: rel_next_def)
  show ?thesis
    using plain next_link_of_plain_header [OF plain] by (simp add: rel_next_def)
qed

text \<open>
  Claim C5 as it is stated covers every URL. A URL with a comma is cut at the comma: for
  the header \<^verbatim>\<open><https://h/c?ids=1,2>; rel="next"\<close> the function returns \<^verbatim>\<open>2\<close>.
\<close>

theorem next_link_as_stated_counterexample:
  "get_next_link (Some (link_header_of [Entry ''https://h/c?ids=1,2'' ''next'']))
     \<noteq> Some ''https://h/c?ids=1,2''"
  by (simp add: get_next_link_def link_header_of_def rel_next_def str_strip_def)

section \<open>Properties of the paginated fetch\<close>

lemma paginate_done: "paginate net headers ps None acc sent = Some (sent, Inr acc)"
  by (subst paginate.simps) simp

lemma paginate_page:
  assumes "serves net headers ps pg"
  shows "paginate net headers ps (Some (page_url pg)) acc sent
           = paginate net headers ps (get_next_link (page_link pg)) (acc @ page_items pg)
               (sent @ [request_for headers ps (page_url pg)])"
  using assms
  by (subst paginate.simps) (auto simp: serves_def request_for_def raise_for_status_def)

lemma paginate_error:
  assumes "u \<noteq> []" and "request_error net (request_for headers ps u) = Some e"
  shows "paginate net headers ps (Some u) acc sent
           = Some (sent @ [request_for headers ps u], Inl e)"
  using assms
  by (subst paginate.simps)
    (auto simp: request_error_def request_for_def split: sum.splits option.splits)

lemma paginate_chain:
  assumes "\<forall>pg \<in> set pages. serves net headers ps pg" and "chain start pages nxt"
  shows "paginate net headers ps (Some start) acc sent
           = paginate net headers ps nxt (acc @ concat (map page_items pages))
               (sent @ map (\<lambda>pg. request_for headers ps (page_url pg)) pages)"
  using assms
proof (induction pages arbitrary: start acc sent)
  case Nil
  then show ?case by simp
next
  case (Cons pg pgs)
  then have pg: "serves net headers ps pg" and start: "page_url pg = start"
    by simp_all
  show ?case
  proof (cases "get_next_link (page_link pg)")
    case None
    then have "pgs = []" "nxt = None" using Cons.prems(2) by simp_all
    then show ?thesis
      using paginate_page[OF pg] None start by simp
  next
    case (Some u)
    then have "chain u pgs nxt" using Cons.prems(2) by simp
    then have "paginate net headers ps (Some u) (acc @ page_items pg)
                 (sent @ [request_for headers ps (page_url pg)])
               = paginate net headers ps nxt ((acc @ page_items pg) @ concat (map page_items pgs))
                   ((sent @ [request_for headers ps (page_url pg)])
                      @ map (\<lambda>pg. request_for headers ps (page_url pg)) pgs)"
      using Cons.IH Cons.prems(1) by simp
    then show ?thesis
      using paginate_page[OF pg] Some start by simp
  qed
qed

lemma endpoint_7:
  "instructors_endpoint (PyInt 7) = ''https://calstatela.instructure.com/api/v1/courses/7/users''"
  by (simp add: instructors_endpoint_def API_URL_def digits.simps)

lemma endpoint_8:
  "instructors_endpoint (PyInt 8) = ''https://calstatela.instructure.com/api/v1/courses/8/users''"
  by (simp add: instructors_endpoint_def API_URL_def digits.simps)

lemma courses_endpoint_eq:
  "courses_endpoint = ''https://calstatela.instructure.com/api/v1/accounts/1/courses''"
  by (simp add: courses_endpoint_def API_URL_def ACCOUNT_ID_def)

lemma next_p2: "get_next_link (Some (link_header_of [Entry ''https://h/p2'' ''next''])) = Some ''https://h/p2''"
  by (simp add: get_next_link_def link_header_of_def rel_next_def str_strip_def)

lemma campus_courses:
  "campus st (request_for (authorization ''secret'') ps courses_endpoint)
     = Inr \<lparr>status_code = 200,
             json_body = Some [course_item 7 ''CS101'', course_item 8 ''CS102''],
             link_header = None\<rparr>"
  by (simp add: campus_def request_for_def)

lemma campus_7:
  "campus st (request_for (authorization ''secret'') ps (instructors_endpoint (PyInt 7)))
     = Inr \<lparr>status_code = 200, json_body = Some [teacher_item ''Alice''],
             link_header = Some (link_header_of [Entry ''https://h/p2'' ''next''])\<rparr>"
  by (simp add: campus_def request_for_def endpoint_7 courses_endpoint_eq)

lemma campus_p2:
  "campus st (request_for (authorization ''secret'') ps ''https://h/p2'')
     = Inr \<lparr>status_code = st,
             json_body = Some [teacher_item ''Bob'', teacher_item ''Alice''],
             link_header = None\<rparr>"
  by (simp add: campus_def request_for_def endpoint_7 courses_endpoint_eq)

lemma campus_8:
  "campus st (request_for (authorization ''secret'') ps (instructors_endpoint (PyInt 8)))
     = Inr \<lparr>status_code = 200, json_body = Some [], link_header = None\<rparr>"
  by (simp add: campus_def request_for_def endpoint_7 endpoint_8 courses_endpoint_eq)

text \<open>
  Claim C4. For pages served by the API, each carrying the link of its successor and the
  last carrying none, \<^verbatim>\<open>fetch_courses\<close> sends one request per page, in page order, and
  returns the items of all the pages, in page order and with repetitions kept. The loop
  of \<^verbatim>\<open>fetch_instructors_for_course\<close> collects the same list, of which the function returns
  the set of names. A single page with no link is the case of one page.
\<close>

theorem paginated_fetch_concatenates:
  assumes "\<forall>pg \<in> set pages. serves net headers ps pg" and "chain start pages None"
  shows "fetch_courses net headers start ps
           = Some (map (\<lambda>pg. request_for headers ps (page_url pg)) pages,
                   Inr (concat (map page_items pages))) \<and>
         (start = instructors_endpoint course_id \<and> ps = instructors_params \<longrightarrow>
            fetch_instructors_for_course net headers course_id
              = Some (map (\<lambda>pg. request_for headers ps (page_url pg)) pages,
                      map_sum id fset_of_list (names_of (concat (map page_items pages)))))"
proof -
  have loop: "paginate net headers ps (Some start) [] []
          = Some (map (\<lambda>pg. request_for headers ps (page_url pg)) pages,
                  Inr (concat (map page_items pages)))"
    using paginate_chain[OF assms, of "[]" "[]"] by (simp add: paginate_done)
  then show ?thesis
    by (auto simp: fetch_courses_def fetch_instructors_for_course_def split: sum.splits)
qed

theorem paginated_fetch_concatenates_witness:
  "fetch_courses (campus 200) (authorization ''secret'') courses_endpoint courses_params
     = Some ([request_for (authorization ''secret'') courses_params courses_endpoint],
             Inr [course_item 7 ''CS101'', course_item 8 ''CS102'']) \<and>
   fetch_instructors_for_course (campus 200) (authorization ''secret'') (PyInt 7)
     = Some ([request_for (authorization ''secret'') instructors_params (instructors_endpoint (PyInt 7)),
              request_for (authorization ''secret'') instructors_params ''https://h/p2''],
             Inr {|''Alice'', ''Bob''|}) \<and>
   fetch_courses (campus 200) (authorization ''secret'') (instructors_endpoint (PyInt 7)) instructors_params
     = Some ([request_for (authorization ''secret'') instructors_params (instructors_endpoint (PyInt 7)),
              request_for (authorization ''secret'') instructors_params ''https://h/p2''],
             Inr [teacher_item ''Alice'', teacher_item ''Bob'', teacher_item ''Alice''])"
proof -
  let ?h = "authorization ''secret''"
  let ?one = "[\<lparr>page_url = courses_endpoint, page_status = 200,
                page_items = [course_item 7 ''CS101'', course_item 8 ''CS102''],
                page_link = None\<rparr>]"
  let ?two = "[\<lparr>page_url = instructors_endpoint (PyInt 7), page_status = 200,
                page_items = [teacher_item ''Alice''],
                page_link = Some (link_header_of [Entry ''https://h/p2'' ''next''])\<rparr>,
              \<lparr>page_url = ''https://h/p2'', page_status = 200,
                page_items = [teacher_item ''Bob'', teacher_item ''Alice''],
                page_link = None\<rparr>]"
  have s1: "\<forall>pg \<in> set ?one. serves (campus 200) ?h courses_params pg"
    by (simp add: serves_def campus_courses) (simp add: courses_endpoint_eq)
  have c1: "chain courses_endpoint ?one None"
    by (simp add: get_next_link_def)
  have s2: "\<forall>pg \<in> set ?two. serves (campus 200) ?h instructors_params pg"
    by (simp add: serves_def campus_7 campus_p2) (simp add: endpoint_7)
  have c2: "chain (instructors_endpoint (PyInt 7)) ?two None"
    by (simp add: next_p2) (simp add: get_next_link_def)
  show ?thesis
    using paginated_fetch_concatenates [OF s1 c1, of "PyInt 7"]
      paginated_fetch_concatenates [OF s2 c2, of "PyInt 7"]
    by (auto simp: teacher_item_def)
qed



section \<open>Properties of the run\<close>

lemma collect_results_error:
  "(c, s, Inl e) \<in> set rs \<Longrightarrow> isl (collect_results rs teachers)"
proof (induction rs arbitrary: teachers)
  case Nil
  then show ?case by simp
next
  case (Cons r rs)
  obtain c' s' res where r: "r = (c', s', res)" by (cases r)
  show ?case
  proof (cases res)
    case (Inl e')
    then show ?thesis using r by simp
  next
    case (Inr names)
    then have "(c, s, Inl e) \<in> set rs" using Cons.prems r by auto
    then show ?thesis using Cons.IH r Inr by (simp split: option.splits)
  qed
qed

lemma submit_all_futures:
  "(c, f) \<in> set (fst (submit_all net headers courses)) \<Longrightarrow>
     c \<in> set courses \<and>
     (\<exists>i. item_id c = Some i \<and> f = fetch_instructors_for_course net headers i)"
  by (induction courses) (auto split: option.splits prod.splits)

lemma submit_all_complete:
  "snd (submit_all net headers courses) = None \<Longrightarrow> c \<in> set courses \<Longrightarrow> item_id c = Some i \<Longrightarrow>
     (c, fetch_instructors_for_course net headers i) \<in> set (fst (submit_all net headers courses))"
  by (induction courses) (auto split: option.splits prod.splits)

lemma wait_all_Some:
  "\<forall>f \<in> set futures. snd f \<noteq> None \<Longrightarrow>
     \<exists>rs. wait_all futures = Some rs \<and>
       (\<forall>c s r. (c, Some (s, r)) \<in> set futures \<longrightarrow> (c, s, r) \<in> set rs)"
proof (induction futures)
  case Nil
  then show ?case by simp
next
  case (Cons f futures)
  then obtain rs where rs: "wait_all futures = Some rs"
    "\<forall>c s r. (c, Some (s, r)) \<in> set futures \<longrightarrow> (c, s, r) \<in> set rs"
    by auto
  obtain c s r where f: "f = (c, Some (s, r))"
    using Cons.prems by (cases f) auto
  show ?case using rs f by auto
qed

lemma failed_course_fails_aggregation:
  assumes fc: "fetch_courses net (authorization key) courses_endpoint courses_params
                 = Some (sent, Inr courses)"
    and ends: "\<forall>c \<in> set courses. \<forall>i. item_id c = Some i \<longrightarrow>
                 fetch_instructors_for_course net (authorization key) i \<noteq> None"
    and c: "c \<in> set courses" "item_id c = Some i"
    and fails: "fetch_instructors_for_course net (authorization key) i = Some (s, Inl e)"
    and perm: "rearranges completion"
  shows "\<exists>sent' e'. fetch_current_teachers net completion key = Some (sent', Inl e')"
proof -
  obtain futures submit_error
    where sub: "submit_all net (authorization key) courses = (futures, submit_error)"
    by (cases "submit_all net (authorization key) courses")
  have "\<forall>f \<in> set futures. snd f \<noteq> None"
  proof
    fix f assume "f \<in> set futures"
    then have "(fst f, snd f) \<in> set (fst (submit_all net (authorization key) courses))"
      using sub by simp
    from submit_all_futures[OF this] obtain j where
      "fst f \<in> set courses" "item_id (fst f) = Some j"
      "snd f = fetch_instructors_for_course net (authorization key) j"
      by blast
    then show "snd f \<noteq> None" using ends by simp
  qed
  from wait_all_Some[OF this] obtain results where results: "wait_all futures = Some results"
    "\<forall>c s r. (c, Some (s, r)) \<in> set futures \<longrightarrow> (c, s, r) \<in> set results"
    by blast
  have "isl (case submit_error of Some e \<Rightarrow> Inl e
                | None \<Rightarrow> collect_results (completion results) [])"
  proof (cases submit_error)
    case (Some e')
    then show ?thesis by simp
  next
    case None
    then have "snd (submit_all net (authorization key) courses) = None"
      using sub by simp
    from submit_all_complete[OF this c] have "(c, Some (s, Inl e)) \<in> set futures"
      using sub fails by simp
    then have "(c, s, Inl e) \<in> set results"
      using results(2) by blast
    moreover have "set (completion results) = set results"
      using perm mset_eq_setD unfolding rearranges_def by blast
    ultimately have "(c, s, Inl e) \<in> set (completion results)"
      by simp
    then show ?thesis
      using None collect_results_error by simp
  qed
  then obtain e' where "(case submit_error of Some e \<Rightarrow> Inl e
                | None \<Rightarrow> collect_results (completion results) []) = Inl e'"
    by (auto simp: isl_def)
  then show ?thesis
    using fc sub results(1) by (simp add: fetch_current_teachers_def)
qed

lemma failed_fetch_fails_main:
  assumes "env_db_reachable e"
    and "fetch_current_teachers (env_net e) (env_completion e) (env_api_key e) = Some (sent, Inl err)"
  shows "main e w = Some (w\<lparr>requests_sent := requests_sent w @ sent\<rparr>, Raised err)"
  using assms by (simp add: main_def create_db_connection_def)

lemma page_failure:
  assumes "\<forall>pg \<in> set pages. serves net headers ps pg" and "chain start pages (Some u)"
    and "u \<noteq> []" and "request_error net (request_for headers ps u) = Some err"
  shows "paginate net headers ps (Some start) [] []
           = Some (map (\<lambda>pg. request_for headers ps (page_url pg)) pages @ [request_for headers ps u],
                   Inl err)"
  using paginate_chain[OF assms(1,2), of "[]" "[]"] paginate_error[OF assms(3,4)]
  by simp

lemma rearranges_rev: "rearranges rev"
  by (simp add: rearranges_def)

lemma campus_fetch_courses:
  "fetch_courses (campus st) (authorization ''secret'') courses_endpoint courses_params
     = Some ([request_for (authorization ''secret'') courses_params courses_endpoint],
             Inr [course_item 7 ''CS101'', course_item 8 ''CS102''])"
proof -
  let ?one = "[\<lparr>page_url = courses_endpoint, page_status = 200,
                page_items = [course_item 7 ''CS101'', course_item 8 ''CS102''],
                page_link = None\<rparr>]"
  have s1: "\<forall>pg \<in> set ?one. serves (campus st) (authorization ''secret'') courses_params pg"
    by (simp add: serves_def campus_courses) (simp add: courses_endpoint_eq)
  have c1: "chain courses_endpoint ?one None"
    by (simp add: get_next_link_def)
  show ?thesis
    using paginate_chain [OF s1 c1, of "[]" "[]"]
    by (simp add: fetch_courses_def paginate_done)
qed

lemma campus_fetch_8:
  "fetch_instructors_for_course (campus st) (authorization ''secret'') (PyInt 8)
     = Some ([request_for (authorization ''secret'') instructors_params (instructors_endpoint (PyInt 8))],
             Inr {||})"
proof -
  let ?one = "[\<lparr>page_url = instructors_endpoint (PyInt 8), page_status = 200,
                page_items = [], page_link = None\<rparr>]"
  have s1: "\<forall>pg \<in> set ?one. serves (campus st) (authorization ''secret'') instructors_params pg"
    by (simp add: serves_def campus_8) (simp add: endpoint_8)
  have c1: "chain (instructors_endpoint (PyInt 8)) ?one None"
    by (simp add: get_next_link_def)
  show ?thesis
    using paginate_chain [OF s1 c1, of "[]" "[]"]
    by (simp add: fetch_instructors_for_course_def paginate_done)
qed

lemma campus_page_7:
  "\<forall>pg \<in> set [\<lparr>page_url = instructors_endpoint (PyInt 7), page_status = 200,
                page_items = [teacher_item ''Alice''],
                page_link = Some (link_header_of [Entry ''https://h/p2'' ''next''])\<rparr>].
     serves (campus st) (authorization ''secret'') instructors_params pg"
  by (simp add: serves_def campus_7) (simp add: endpoint_7)

lemma campus_chain_7:
  "chain (instructors_endpoint (PyInt 7))
     [\<lparr>page_url = instructors_endpoint (PyInt 7), page_status = 200,
       page_items = [teacher_item ''Alice''],
       page_link = Some (link_header_of [Entry ''https://h/p2'' ''next''])\<rparr>]
     (Some ''https://h/p2'')"
  by (simp add: next_p2)

lemma campus_p2_fails:
  "request_error (campus 500) (request_for (authorization ''secret'') instructors_params ''https://h/p2'')
     = Some (HTTPError 500)"
  by (simp add: request_error_def campus_p2 raise_for_status_def)

lemma campus_fetch_7_fails:
  "fetch_instructors_for_course (campus 500) (authorization ''secret'') (PyInt 7)
     = Some ([request_for (authorization ''secret'') instructors_params (instructors_endpoint (PyInt 7)),
              request_for (authorization ''secret'') instructors_params ''https://h/p2''],
             Inl (HTTPError 500))"
  using page_failure [OF campus_page_7 campus_chain_7 _ campus_p2_fails]
  by (simp add: fetch_instructors_for_course_def)

lemma campus_fetch_7:
  "fetch_instructors_for_course (campus 200) (authorization ''secret'') (PyInt 7)
     = Some ([request_for (authorization ''secret'') instructors_params (instructors_endpoint (PyInt 7)),
              request_for (authorization ''secret'') instructors_params ''https://h/p2''],
             Inr {|''Alice'', ''Bob''|})"
proof -
  let ?two = "[\<lparr>page_url = instructors_endpoint (PyInt 7), page_status = 200,
                page_items = [teacher_item ''Alice''],
                page_link = Some (link_header_of [Entry ''https://h/p2'' ''next''])\<rparr>,
              \<lparr>page_url = ''https://h/p2'', page_status = 200,
                page_items = [teacher_item ''Bob'', teacher_item ''Alice''],
                page_link = None\<rparr>]"
  have s2: "\<forall>pg \<in> set ?two. serves (campus 200) (authorization ''secret'') instructors_params pg"
    by (simp add: serves_def campus_7 campus_p2) (simp add: endpoint_7)
  have c2: "chain (instructors_endpoint (PyInt 7)) ?two None"
    by (simp add: next_p2) (simp add: get_next_link_def)
  show ?thesis
    using paginate_chain [OF s2 c2, of "[]" "[]"]
    by (auto simp: fetch_instructors_for_course_def paginate_done teacher_item_def)
qed

lemma campus_200_teachers:
  "fetch_current_teachers (campus 200) rev ''secret''
     = Some ([request_for (authorization ''secret'') courses_params courses_endpoint,
              request_for (authorization ''secret'') instructors_params (instructors_endpoint (PyInt 7)),
              request_for (authorization ''secret'') instructors_params ''https://h/p2'',
              request_for (authorization ''secret'') instructors_params (instructors_endpoint (PyInt 8))],
             Inr [(''CS102'', {||}), (''CS101'', {|''Alice'', ''Bob''|})])"
  by (simp add: fetch_current_teachers_def Let_def campus_fetch_courses campus_fetch_8
      campus_fetch_7 course_item_def)


lemma campus_500_teachers:
  "fetch_current_teachers (campus 500) rev ''secret''
     = Some ([request_for (authorization ''secret'') courses_params courses_endpoint,
              request_for (authorization ''secret'') instructors_params (instructors_endpoint (PyInt 7)),
              request_for (authorization ''secret'') instructors_params ''https://h/p2'',
              request_for (authorization ''secret'') instructors_params (instructors_endpoint (PyInt 8))],
             Inl (HTTPError 500))"
  by (simp add: fetch_current_teachers_def Let_def campus_fetch_courses campus_fetch_8
      campus_fetch_7_fails course_item_def)

text \<open>
  Claim C6. A failed request fails the fetch and the run, and nothing partial is kept.
  When the pages before it are served and the request for the next page fails (the
  transport raises, the status is refused or the body cannot be decoded),
  \<^verbatim>\<open>fetch_courses\<close> and \<^verbatim>\<open>fetch_instructors_for_course\<close> return that exception and none of the
  items read so far. When the course fetch fails, or when the fetch of one course fails
  and the fetches of the other courses end, \<^verbatim>\<open>fetch_current_teachers\<close> returns an exception
  and no snapshot. When \<^verbatim>\<open>fetch_current_teachers\<close> fails, \<^verbatim>\<open>main\<close> ends with that exception and
  a state that differs from the initial one by the requests sent only: the file and the
  table are as they were, so nothing was saved and nothing compared.
\<close>

theorem failed_fetch_fails_the_run:
  "((\<forall>pg \<in> set pages. serves net headers ps pg) \<and> chain start pages (Some u) \<and> u \<noteq> [] \<and>
    request_error net (request_for headers ps u) = Some err \<longrightarrow>
      fetch_courses net headers start ps
        = Some (map (\<lambda>pg. request_for headers ps (page_url pg)) pages @ [request_for headers ps u],
                Inl err) \<and>
      (start = instructors_endpoint course_id \<and> ps = instructors_params \<longrightarrow>
         fetch_instructors_for_course net headers course_id
           = Some (map (\<lambda>pg. request_for headers ps (page_url pg)) pages
                     @ [request_for headers ps u], Inl err))) \<and>
   (fetch_courses net (authorization key) courses_endpoint courses_params = Some (sent, Inl e) \<longrightarrow>
      fetch_current_teachers net completion key = Some (sent, Inl e)) \<and>
   (fetch_courses net (authorization key) courses_endpoint courses_params
      = Some (sent, Inr courses) \<and>
    (\<forall>c \<in> set courses. \<forall>i. item_id c = Some i \<longrightarrow>
       fetch_instructors_for_course net (authorization key) i \<noteq> None) \<and>
    c \<in> set courses \<and> item_id c = Some i \<and>
    fetch_instructors_for_course net (authorization key) i = Some (s, Inl e) \<and>
    rearranges completion \<longrightarrow>
      (\<exists>sent' e'. fetch_current_teachers net completion key = Some (sent', Inl e'))) \<and>
   (env_db_reachable env \<and>
    fetch_current_teachers (env_net env) (env_completion env) (env_api_key env)
      = Some (sent, Inl e) \<longrightarrow>
      main env w = Some (w\<lparr>requests_sent := requests_sent w @ sent\<rparr>, Raised e))"
proof (intro conjI impI)
  assume a: "(\<forall>pg \<in> set pages. serves net headers ps pg) \<and> chain start pages (Some u) \<and> u \<noteq> [] \<and>
    request_error net (request_for headers ps u) = Some err"
  then have loop: "paginate net headers ps (Some start) [] []
           = Some (map (\<lambda>pg. request_for headers ps (page_url pg)) pages @ [request_for headers ps u],
                   Inl err)"
    using page_failure by blast
  then show "fetch_courses net headers start ps
        = Some (map (\<lambda>pg. request_for headers ps (page_url pg)) pages @ [request_for headers ps u],
                Inl err)"
    by (simp add: fetch_courses_def)
  assume "start = instructors_endpoint course_id \<and> ps = instructors_params"
  then show "fetch_instructors_for_course net headers course_id
           = Some (map (\<lambda>pg. request_for headers ps (page_url pg)) pages
                     @ [request_for headers ps u], Inl err)"
    using loop by (simp add: fetch_instructors_for_course_def)
next
  assume "fetch_courses net (authorization key) courses_endpoint courses_params = Some (sent, Inl e)"
  then show "fetch_current_teachers net completion key = Some (sent, Inl e)"
    by (simp add: fetch_current_teachers_def)
next
  assume "fetch_courses net (authorization key) courses_endpoint courses_params
      = Some (sent, Inr courses) \<and>
    (\<forall>c \<in> set courses. \<forall>i. item_id c = Some i \<longrightarrow>
       fetch_instructors_for_course net (authorization key) i \<noteq> None) \<and>
    c \<in> set courses \<and> item_id c = Some i \<and>
    fetch_instructors_for_course net (authorization key) i = Some (s, Inl e) \<and>
    rearranges completion"
  then show "\<exists>sent' e'. fetch_current_teachers net completion key = Some (sent', Inl e')"
    using failed_course_fails_aggregation by blast
next
  assume "env_db_reachable env \<and>
    fetch_current_teachers (env_net env) (env_completion env) (env_api_key env)
      = Some (sent, Inl e)"
  then show "main env w = Some (w\<lparr>requests_sent := requests_sent w @ sent\<rparr>, Raised e)"
    using failed_fetch_fails_main by blast
qed


theorem failed_fetch_fails_the_run_witness:
  "fetch_instructors_for_course (campus 500) (authorization ''secret'') (PyInt 7)
     = Some ([request_for (authorization ''secret'') instructors_params (instructors_endpoint (PyInt 7)),
              request_for (authorization ''secret'') instructors_params ''https://h/p2''],
             Inl (HTTPError 500)) \<and>
   (\<exists>sent e. fetch_current_teachers (campus 500) rev ''secret'' = Some (sent, Inl e)) \<and>
   main (campus_env 500 True) later_run
     = Some (later_run\<lparr>requests_sent :=
               [request_for (authorization ''secret'') courses_params courses_endpoint,
                request_for (authorization ''secret'') instructors_params (instructors_endpoint (PyInt 7)),
                request_for (authorization ''secret'') instructors_params ''https://h/p2'',
                request_for (authorization ''secret'') instructors_params (instructors_endpoint (PyInt 8))]\<rparr>,
             Raised (HTTPError 500))"
proof -
  let ?h = "authorization ''secret''"
  let ?pages = "[\<lparr>page_url = instructors_endpoint (PyInt 7), page_status = 200,
                  page_items = [teacher_item ''Alice''],
                  page_link = Some (link_header_of [Entry ''https://h/p2'' ''next''])\<rparr>]"
  let ?courses = "[course_item 7 ''CS101'', course_item 8 ''CS102'']"
  let ?sent = "[request_for ?h courses_params courses_endpoint,
                request_for ?h instructors_params (instructors_endpoint (PyInt 7)),
                request_for ?h instructors_params ''https://h/p2'',
                request_for ?h instructors_params (instructors_endpoint (PyInt 8))]"
  have page: "(\<forall>pg \<in> set ?pages. serves (campus 500) ?h instructors_params pg) \<and>
      chain (instructors_endpoint (PyInt 7)) ?pages (Some ''https://h/p2'') \<and>
      ''https://h/p2'' \<noteq> [] \<and>
      request_error (campus 500) (request_for ?h instructors_params ''https://h/p2'')
        = Some (HTTPError 500)"
    using campus_page_7 campus_chain_7 campus_p2_fails by simp
  have first: "fetch_instructors_for_course (campus 500) ?h (PyInt 7)
     = Some (map (\<lambda>pg. request_for ?h instructors_params (page_url pg)) ?pages
               @ [request_for ?h instructors_params ''https://h/p2''], Inl (HTTPError 500))"
    using page
      failed_fetch_fails_the_run [where pages = ?pages and net = "campus 500" and headers = ?h
        and ps = instructors_params and start = "instructors_endpoint (PyInt 7)"
        and u = "''https://h/p2''" and err = "HTTPError 500" and course_id = "PyInt 7"]
    by blast
  have "\<forall>c \<in> set ?courses. \<forall>i. item_id c = Some i \<longrightarrow>
          fetch_instructors_for_course (campus 500) ?h i \<noteq> None"
    by (simp add: course_item_def campus_fetch_8 campus_fetch_7_fails)
  moreover have "course_item 7 ''CS101'' \<in> set ?courses" "item_id (course_item 7 ''CS101'') = Some (PyInt 7)"
    by (simp_all add: course_item_def)
  ultimately have second:
    "\<exists>sent e. fetch_current_teachers (campus 500) rev ''secret'' = Some (sent, Inl e)"
    using campus_fetch_courses [of 500] campus_fetch_7_fails rearranges_rev
      failed_fetch_fails_the_run [where net = "campus 500" and key = "''secret''"
        and courses = ?courses and c = "course_item 7 ''CS101''" and i = "PyInt 7"
        and e = "HTTPError 500" and completion = rev
        and sent = "[request_for ?h courses_params courses_endpoint]"
        and s = "[request_for ?h instructors_params (instructors_endpoint (PyInt 7)),
                  request_for ?h instructors_params ''https://h/p2'']"]
    by blast
  have "env_db_reachable (campus_env 500 True) \<and>
        fetch_current_teachers (env_net (campus_env 500 True)) (env_completion (campus_env 500 True))
          (env_api_key (campus_env 500 True)) = Some (?sent, Inl (HTTPError 500))"
    by (simp add: campus_env_def campus_500_teachers)
  then have third: "main (campus_env 500 True) later_run
          = Some (later_run\<lparr>requests_sent := requests_sent later_run @ ?sent\<rparr>,
                  Raised (HTTPError 500))"
    using failed_fetch_fails_the_run [where env = "campus_env 500 True" and sent = ?sent
        and e = "HTTPError 500" and w = later_run]
    by blast
  show ?thesis
    using first second third by (simp add: later_run_def)
qed

text \<open>
  Claim C7. On a first run, with no file, \<^verbatim>\<open>load_teachers_list\<close> returns \<open>None\<close>, and a run
  whose fetch succeeds ends with the snapshot fetched in the file and the table as it
  was: \<^verbatim>\<open>compare_teachers\<close> is not called. (In the example, comparing with an empty mapping
  would have written two rows.)
\<close>

theorem first_run_seeds_baseline:
  assumes "env_db_reachable e" and "snapshot_file w = None"
    and "fetch_current_teachers (env_net e) (env_completion e) (env_api_key e)
           = Some (sent, Inr current)"
  shows "load_teachers_list w = None \<and>
         main e w = Some (w\<lparr>requests_sent := requests_sent w @ sent,
                            snapshot_file :=
                              Some (map (\<lambda>(course, ts). (course, env_set_iteration e ts)) current)\<rparr>,
                          Finished)"
  using assms
  by (simp add: main_def create_db_connection_def load_teachers_list_def save_teachers_list_def)

theorem first_run_seeds_baseline_witness:
  "env_db_reachable (campus_env 200 True) \<and> snapshot_file first_run = None \<and>
   load_teachers_list first_run = None \<and>
   main (campus_env 200 True) first_run
     = Some (\<lparr>snapshot_file = Some [(''CS102'', []), (''CS101'', [''Alice'', ''Bob''])],
              teacher_changes = [],
              requests_sent =
                [request_for (authorization ''secret'') courses_params courses_endpoint,
                 request_for (authorization ''secret'') instructors_params (instructors_endpoint (PyInt 7)),
                 request_for (authorization ''secret'') instructors_params ''https://h/p2'',
                 request_for (authorization ''secret'') instructors_params (instructors_endpoint (PyInt 8))]\<rparr>,
             Finished) \<and>
   compare_teachers alphabetical [] [(''CS102'', {||}), (''CS101'', {|''Alice'', ''Bob''|})] []
     = [(''CS101'', Added, ''Alice''), (''CS101'', Added, ''Bob'')]"
proof -
  have a: "env_db_reachable (campus_env 200 True)"
    by (simp add: campus_env_def)
  have b: "snapshot_file first_run = None"
    by (simp add: first_run_def)
  have c: "fetch_current_teachers (env_net (campus_env 200 True))
             (env_completion (campus_env 200 True)) (env_api_key (campus_env 200 True))
           = Some ([request_for (authorization ''secret'') courses_params courses_endpoint,
                 request_for (authorization ''secret'') instructors_params (instructors_endpoint (PyInt 7)),
                 request_for (authorization ''secret'') instructors_params ''https://h/p2'',
                 request_for (authorization ''secret'') instructors_params (instructors_endpoint (PyInt 8))],
                Inr [(''CS102'', {||}), (''CS101'', {|''Alice'', ''Bob''|})])"
    by (simp add: campus_env_def campus_200_teachers)
  have d: "compare_teachers alphabetical [] [(''CS102'', {||}), (''CS101'', {|''Alice'', ''Bob''|})] []
     = [(''CS101'', Added, ''Alice''), (''CS101'', Added, ''Bob'')]"
    by (simp add: compare_teachers_append course_changes_def get_or_empty_def alphabetical_empty
        Alice_Bob)
  show ?thesis
    using a b d first_run_seeds_baseline [OF a b c]
    by (simp add: first_run_def campus_env_def alphabetical_empty Alice_Bob)
qed

text \<open>
  Claim C9. When the database cannot be reached, \<^verbatim>\<open>main\<close> returns at once and leaves the
  state as it was: no request sent, no row written, the file unchanged. This holds for
  every API, also one on which the fetch would fail or never end.
\<close>

theorem no_connection_no_work:
  assumes "\<not> env_db_reachable e"
  shows "main e w = Some (w, No_connection)"
  using assms by (simp add: main_def create_db_connection_def)

theorem no_connection_no_work_witness:
  "\<not> env_db_reachable (campus_env 200 False) \<and>
   main (campus_env 200 False) later_run = Some (later_run, No_connection) \<and>
   (\<exists>w. main (campus_env 200 True) later_run = Some (w, Finished) \<and> w \<noteq> later_run)"
proof -
  have a: "\<not> env_db_reachable (campus_env 200 False)"
    by (simp add: campus_env_def)
  have "main (campus_env 200 True) later_run
          = Some (save_teachers_list alphabetical [(''CS102'', {||}), (''CS101'', {|''Alice'', ''Bob''|})]
                   (later_run\<lparr>requests_sent :=
                      [request_for (authorization ''secret'') courses_params courses_endpoint,
                       request_for (authorization ''secret'') instructors_params (instructors_endpoint (PyInt 7)),
                       request_for (authorization ''secret'') instructors_params ''https://h/p2'',
                       request_for (authorization ''secret'') instructors_params (instructors_endpoint (PyInt 8))],
                      teacher_changes :=
                        compare_teachers alphabetical [(''CS101'', {|''Alice''|})]
                          [(''CS102'', {||}), (''CS101'', {|''Alice'', ''Bob''|})]
                          [(''CS101'', Added, ''Alice'')]\<rparr>), Finished)"
    by (simp add: main_def create_db_connection_def campus_env_def campus_200_teachers
        load_teachers_list_def later_run_def)
  moreover have "save_teachers_list alphabetical [(''CS102'', {||}), (''CS101'', {|''Alice'', ''Bob''|})]
                   (later_run\<lparr>requests_sent :=
                      [request_for (authorization ''secret'') courses_params courses_endpoint,
                       request_for (authorization ''secret'') instructors_params (instructors_endpoint (PyInt 7)),
                       request_for (authorization ''secret'') instructors_params ''https://h/p2'',
                       request_for (authorization ''secret'') instructors_params (instructors_endpoint (PyInt 8))],
                      teacher_changes :=
                        compare_teachers alphabetical [(''CS101'', {|''Alice''|})]
                          [(''CS102'', {||}), (''CS101'', {|''Alice'', ''Bob''|})]
                          [(''CS101'', Added, ''Alice'')]\<rparr>) \<noteq> later_run"
    by (simp add: save_teachers_list_def later_run_def world.defs)
  ultimately show ?thesis
    using a no_connection_no_work [OF a, of later_run] by simp
qed





end
